theory Spec2Isabelle
  imports Complex_Main
begin

section \<open>Streaming output of the movie alignment protocol\<close>

text \<open>
  A shallow embedding of \<^verbatim>\<open>ProtAlignMovies\<close>
  (\<^verbatim>\<open>pyworkflow/em/protocol/protocol_align_movies.py\<close>): the output-set loader
  \<^verbatim>\<open>_loadOutputSet\<close>, the output movie constructor \<^verbatim>\<open>_createOutputMovie\<close> and the
  polling step \<^verbatim>\<open>_checkNewOutput\<close>. The protocol object and the files it keeps on disk
  are one record that every function takes and returns.
\<close>

subsection \<open>Data\<close>

datatype stream_state = STREAM_OPEN | STREAM_CLOSED

datatype status = STATUS_NEW | STATUS_WAITING | STATUS_RUNNING | STATUS_FINISHED

datatype relation_name = RELATION_TRANSFORM | RELATION_SOURCE

datatype error = ClosedCollectionError

text \<open>\<^verbatim>\<open>MovieAlignment(first, last, xshifts, yshifts)\<close> with its region of interest.\<close>

record movieAlignment =
  alnFirst :: int
  alnLast :: int
  xshifts :: "int list"
  yshifts :: "int list"
  roi :: "int list"

record movie =
  objId :: int
  micName :: string
  fileName :: string
  numberOfFrames :: int
  alignment :: "movieAlignment option"

text \<open>A micrograph made by \<^verbatim>\<open>micSet.ITEM_TYPE()\<close> has no field set yet: \<open>None\<close>.\<close>

record micrograph =
  micObjId :: "int option"
  micMicName :: "string option"
  micFileName :: "string option"

text \<open>
  A set of items (\<^verbatim>\<open>SetOfMovies\<close>, \<^verbatim>\<open>SetOfMicrographs\<close>): the file it lives in, its
  items in insertion order, its stream state and the information \<^verbatim>\<open>copyInfo\<close> carries
  over. Python floats are read as reals.
\<close>

record 'a collection =
  filename :: string
  items :: "'a list"
  streamState :: stream_state
  samplingRate :: real
  acquisition :: string

text \<open>The parameters of the form and the path helpers of the protocol base class.\<close>

record params =
  alignFrame0 :: int
  alignFrameN :: int
  sumFrame0 :: int
  sumFrameN :: int
  binFactor :: real
  cropOffsetX :: int
  cropOffsetY :: int
  cropDimX :: int
  cropDimY :: int
  doSaveAveMic :: bool
  doSaveMovie :: bool
  getPath :: "string \<Rightarrow> string"
  getExtraPath :: "string \<Rightarrow> string"
  removeBaseExt :: "string \<Rightarrow> string"

text \<open>
  What the input side of the protocol provides at the moment of a call: the input set,
  the movies known so far, whether the input stream is closed, and which movies have
  been processed already (\<^verbatim>\<open>_isMovieDone\<close>).
\<close>

record stream_input =
  inputMovies :: "movie collection"
  listOfMovies :: "movie list"
  streamClosed :: bool
  isMovieDone :: "movie \<Rightarrow> bool"

text \<open>
  The protocol: the attribute \<^verbatim>\<open>finished\<close> (absent reads as \<open>False\<close>), the text file
  of done identifiers, the set files on disk by path, the relations recorded so far and
  the status of the first join step (\<open>None\<close> when there is none).
\<close>

record protocol =
  finished :: bool
  doneFile :: "int list"
  movieSets :: "string \<rightharpoonup> movie collection"
  micSets :: "string \<rightharpoonup> micrograph collection"
  relations :: "(relation_name \<times> string \<times> string) list"
  joinStep :: "status option"

subsection \<open>Collaborators outside the file\<close>

text \<open>
  Modelled from the spec: \<^verbatim>\<open>_readDoneList\<close> and \<^verbatim>\<open>_writeDoneList\<close> of the base class
  are missing. The done set is persisted as an append-only log of identifiers:
  loading returns the log, marking appends the identifiers of the given items.
\<close>

definition readDoneList :: "protocol \<Rightarrow> int list" where
  "readDoneList s = doneFile s"

definition writeDoneList :: "movie list \<Rightarrow> protocol \<Rightarrow> protocol" where
  "writeDoneList movieList s = s\<lparr>doneFile := doneFile s @ map objId movieList\<rparr>"

text \<open>
  Modelled from the spec: the set class is missing. A new set is empty; opening an
  existing one for appending puts it in the open state; \<^verbatim>\<open>append\<close> fails on a closed
  set and otherwise inserts at the end, keeping the item's identifier; \<^verbatim>\<open>copyInfo\<close>
  copies the carried-forward metadata of the source set.
\<close>

definition newSet :: "string \<Rightarrow> 'a collection" where
  "newSet fn = \<lparr>filename = fn, items = [], streamState = STREAM_OPEN,
     samplingRate = 0, acquisition = []\<rparr>"

definition setStreamState :: "stream_state \<Rightarrow> 'a collection \<Rightarrow> 'a collection" where
  "setStreamState st c = c\<lparr>streamState := st\<rparr>"

definition enableAppend :: "'a collection \<Rightarrow> 'a collection" where
  "enableAppend c = c\<lparr>streamState := STREAM_OPEN\<rparr>"

definition copyInfo :: "'a collection \<Rightarrow> 'b collection \<Rightarrow> 'a collection" where
  "copyInfo c src = c\<lparr>samplingRate := samplingRate src, acquisition := acquisition src\<rparr>"

definition setSamplingRate :: "real \<Rightarrow> 'a collection \<Rightarrow> 'a collection" where
  "setSamplingRate r c = c\<lparr>samplingRate := r\<rparr>"

definition append_item :: "'a collection \<Rightarrow> 'a \<Rightarrow> error + 'a collection" where
  "append_item c x =
     (if streamState c = STREAM_CLOSED then Inl ClosedCollectionError
      else Inr (c\<lparr>items := items c @ [x]\<rparr>))"

text \<open>The loop \<^verbatim>\<open>for x in xs: c.append(x)\<close>; it stops at the first failure.\<close>

fun appendAll :: "'a collection \<Rightarrow> 'a list \<Rightarrow> error + 'a collection" where
  "appendAll c [] = Inr c"
| "appendAll c (x # xs) =
     (case append_item c x of Inl e \<Rightarrow> Inl e | Inr c' \<Rightarrow> appendAll c' xs)"

text \<open>
  Modelled from the spec: \<^verbatim>\<open>_updateOutputSet\<close> of the base class is missing. It sets
  the stream state of the set and stores the set durably under its file name.
\<close>

definition updateMovieSet :: "movie collection \<Rightarrow> stream_state \<Rightarrow> protocol \<Rightarrow> protocol" where
  "updateMovieSet c st s =
     s\<lparr>movieSets := (movieSets s)(filename c \<mapsto> setStreamState st c)\<rparr>"

definition updateMicSet :: "micrograph collection \<Rightarrow> stream_state \<Rightarrow> protocol \<Rightarrow> protocol" where
  "updateMicSet c st s =
     s\<lparr>micSets := (micSets s)(filename c \<mapsto> setStreamState st c)\<rparr>"

text \<open>
  Modelled from the spec: the relation helpers of the base class are missing. Each call
  writes one provenance edge from the source set to the output set; nothing in the
  callee prevents a second edge for the same pair.
\<close>

definition defineRelation ::
  "relation_name \<Rightarrow> 'a collection \<Rightarrow> 'b collection \<Rightarrow> protocol \<Rightarrow> protocol" where
  "defineRelation r src dst s =
     s\<lparr>relations := relations s @ [(r, filename src, filename dst)]\<rparr>"

subsection \<open>Hooks of the class\<close>

definition getMovieRoot :: "params \<Rightarrow> movie \<Rightarrow> string" where
  "getMovieRoot P m = removeBaseExt P (fileName m)"

definition getOutputMovieName :: "params \<Rightarrow> movie \<Rightarrow> string" where
  "getOutputMovieName P m = getMovieRoot P m @ ''_aligned_movie.mrcs''"

definition getOutputMicName :: "params \<Rightarrow> movie \<Rightarrow> string" where
  "getOutputMicName P m = getMovieRoot P m @ ''_aligned_mic.mrc''"

definition getMovieShifts :: "movie \<Rightarrow> int list \<times> int list" where
  "getMovieShifts m = ([], [])"

definition doGenerateOutputMovies :: bool where
  "doGenerateOutputMovies = True"

definition preprocessOutputMicrograph :: "micrograph \<Rightarrow> movie \<Rightarrow> micrograph" where
  "preprocessOutputMicrograph mic m = mic"

subsection \<open>Output items\<close>

datatype frame_prefix = Align | Sum

definition getFrameRange :: "params \<Rightarrow> int \<Rightarrow> frame_prefix \<Rightarrow> int \<times> int" where
  "getFrameRange P n prefix =
     (case prefix of
        Align \<Rightarrow> (1 + alignFrame0 P, n - alignFrameN P)
      | Sum \<Rightarrow> (1 + sumFrame0 P, n - sumFrameN P))"

definition createOutputMovie :: "params \<Rightarrow> movie \<Rightarrow> movie" where
  "createOutputMovie P m =
     (let alignedMovie = m;
          n = numberOfFrames m;
          (first, last) = getFrameRange P n Align;
          (alignedMovie, xs, ys) =
            (if doSaveMovie P then
               (alignedMovie\<lparr>fileName := getExtraPath P (getOutputMovieName P m)\<rparr>,
                replicate (nat (last - first + 1)) 0,
                replicate (nat (last - first + 1)) 0)
             else (alignedMovie, fst (getMovieShifts m), snd (getMovieShifts m)));
          aln = \<lparr>alnFirst = first, alnLast = last, xshifts = xs, yshifts = ys,
                  roi = [cropOffsetX P, cropOffsetY P, cropDimX P, cropDimY P]\<rparr>
      in alignedMovie\<lparr>alignment := Some aln\<rparr>)"

text \<open>The body of the micrograph loop, up to the \<^verbatim>\<open>append\<close>.\<close>

definition createOutputMic :: "params \<Rightarrow> movie \<Rightarrow> micrograph" where
  "createOutputMic P m =
     (let mic = \<lparr>micObjId = None, micMicName = None, micFileName = None\<rparr>;
          mic = mic\<lparr>micObjId := Some (objId m)\<rparr>;
          mic = mic\<lparr>micMicName := Some (micName m)\<rparr>;
          extraMicFn = getExtraPath P (getOutputMicName P m);
          mic = mic\<lparr>micFileName := Some extraMicFn\<rparr>
      in preprocessOutputMicrograph mic m)"

subsection \<open>Loading an output set\<close>

definition loadOutputSet ::
  "params \<Rightarrow> stream_input \<Rightarrow> (string \<rightharpoonup> 'a collection) \<Rightarrow> string \<Rightarrow> 'a collection" where
  "loadOutputSet P I store baseName =
     (let setFile = getPath P baseName;
          outputSet = (case store setFile of
                         Some c \<Rightarrow> enableAppend (c\<lparr>filename := setFile\<rparr>)
                       | None \<Rightarrow> setStreamState STREAM_OPEN (newSet setFile));
          newSampling = samplingRate (inputMovies I) * binFactor P;
          outputSet = copyInfo outputSet (inputMovies I)
      in setSamplingRate newSampling outputSet)"

subsection \<open>One call of the polling step\<close>

definition moviesBaseName :: "params \<Rightarrow> string" where
  "moviesBaseName P =
     ''movies'' @ (if doSaveMovie P then ''_aligned'' else ''_original'') @ ''.sqlite''"

text \<open>Lines 124 and 125: the movies that are done and not in the done list yet.\<close>

definition newDoneOf :: "stream_input \<Rightarrow> int list \<Rightarrow> movie list" where
  "newDoneOf I doneList =
     filter (\<lambda>m. objId m \<notin> set doneList \<and> isMovieDone I m) (listOfMovies I)"

text \<open>Lines 127 to 135: write the new identifiers to the done list, set the flag.\<close>

definition markStage :: "stream_input \<Rightarrow> int list \<Rightarrow> movie list \<Rightarrow> protocol \<Rightarrow> protocol" where
  "markStage I doneList newDone s =
     (let s = (if newDone \<noteq> [] then writeDoneList newDone s else s);
          allDone = length doneList + length newDone
      in s\<lparr>finished := (streamClosed I \<and> allDone = length (listOfMovies I))\<rparr>)"

text \<open>Lines 138 to 149.\<close>

definition movieStage ::
  "params \<Rightarrow> stream_input \<Rightarrow> movie list \<Rightarrow> bool \<Rightarrow> stream_state \<Rightarrow> protocol
     \<Rightarrow> error + protocol" where
  "movieStage P I newDone firstTime streamMode s =
     (if doGenerateOutputMovies then
        (let movieSet = loadOutputSet P I (movieSets s) (moviesBaseName P) in
         case appendAll movieSet (map (createOutputMovie P) newDone) of
           Inl e \<Rightarrow> Inl e
         | Inr movieSet \<Rightarrow>
             (let s = updateMovieSet movieSet streamMode s
              in Inr (if firstTime
                      then defineRelation RELATION_TRANSFORM (inputMovies I) movieSet s
                      else s)))
      else Inr s)"

text \<open>Lines 151 to 168.\<close>

definition micStage ::
  "params \<Rightarrow> stream_input \<Rightarrow> movie list \<Rightarrow> bool \<Rightarrow> stream_state \<Rightarrow> protocol
     \<Rightarrow> error + protocol" where
  "micStage P I newDone firstTime streamMode s =
     (if doSaveAveMic P then
        (let micSet = loadOutputSet P I (micSets s) ''micrographs.sqlite'' in
         case appendAll micSet (map (createOutputMic P) newDone) of
           Inl e \<Rightarrow> Inl e
         | Inr micSet \<Rightarrow>
             (let s = updateMicSet micSet streamMode s
              in Inr (if firstTime
                      then defineRelation RELATION_SOURCE (inputMovies I) micSet s
                      else s)))
      else Inr s)"

text \<open>Lines 170 to 173.\<close>

definition joinStage :: "protocol \<Rightarrow> protocol" where
  "joinStage s =
     (if finished s then
        (case joinStep s of
           Some st \<Rightarrow> (if st = STATUS_WAITING then s\<lparr>joinStep := Some STATUS_NEW\<rparr> else s)
         | None \<Rightarrow> s)
      else s)"

definition checkNewOutput :: "params \<Rightarrow> stream_input \<Rightarrow> protocol \<Rightarrow> error + protocol" where
  "checkNewOutput P I s =
     (if finished s then Inr s
      else
        (let doneList = readDoneList s;
             newDone = newDoneOf I doneList;
             firstTime = (length doneList = 0);
             s1 = markStage I doneList newDone s;
             streamMode = (if finished s1 then STREAM_CLOSED else STREAM_OPEN)
         in case movieStage P I newDone firstTime streamMode s1 of
              Inl e \<Rightarrow> Inl e
            | Inr s2 \<Rightarrow>
                (case micStage P I newDone firstTime streamMode s2 of
                   Inl e \<Rightarrow> Inl e
                 | Inr s3 \<Rightarrow> Inr (joinStage s3))))"

text \<open>
  The states the protocol and its files go through during one call, in order: after the
  done list is written, after the movie set is stored, after the micrograph set is
  stored, after the join step is released. A call that returns at once goes through
  none.
\<close>

definition checkNewOutput_states :: "params \<Rightarrow> stream_input \<Rightarrow> protocol \<Rightarrow> protocol list" where
  "checkNewOutput_states P I s =
     (if finished s then []
      else
        (let doneList = readDoneList s;
             newDone = newDoneOf I doneList;
             firstTime = (length doneList = 0);
             s1 = markStage I doneList newDone s;
             streamMode = (if finished s1 then STREAM_CLOSED else STREAM_OPEN)
         in case movieStage P I newDone firstTime streamMode s1 of
              Inl e \<Rightarrow> [s1]
            | Inr s2 \<Rightarrow>
                (case micStage P I newDone firstTime streamMode s2 of
                   Inl e \<Rightarrow> [s1, s2]
                 | Inr s3 \<Rightarrow> [s1, s2, s3, joinStage s3])))"

subsection \<open>Runs\<close>

text \<open>
  The protocol is polled again and again, each time with what the input side shows at
  that moment. A restart of the process keeps the files and loses the attribute
  \<^verbatim>\<open>finished\<close>.
\<close>

datatype event = Poll stream_input | Restart

fun step :: "params \<Rightarrow> event \<Rightarrow> protocol \<Rightarrow> error + protocol" where
  "step P (Poll I) s = checkNewOutput P I s"
| "step P Restart s = Inr (s\<lparr>finished := False\<rparr>)"

fun run :: "params \<Rightarrow> event list \<Rightarrow> protocol \<Rightarrow> error + protocol" where
  "run P [] s = Inr s"
| "run P (e # es) s = (case step P e s of Inl err \<Rightarrow> Inl err | Inr s' \<Rightarrow> run P es s')"

definition initial :: "status option \<Rightarrow> protocol" where
  "initial js = \<lparr>finished = False, doneFile = [], movieSets = Map.empty,
     micSets = Map.empty, relations = [], joinStep = js\<rparr>"

text \<open>The items stored so far in the two output sets (none when the file is absent).\<close>

definition movieItems :: "params \<Rightarrow> protocol \<Rightarrow> movie list" where
  "movieItems P s =
     (case movieSets s (getPath P (moviesBaseName P)) of None \<Rightarrow> [] | Some c \<Rightarrow> items c)"

definition micItems :: "params \<Rightarrow> protocol \<Rightarrow> micrograph list" where
  "micItems P s =
     (case micSets s (getPath P ''micrographs.sqlite'') of None \<Rightarrow> [] | Some c \<Rightarrow> items c)"

definition movieIds :: "params \<Rightarrow> protocol \<Rightarrow> int list" where
  "movieIds P s = map objId (movieItems P s)"

definition micIds :: "params \<Rightarrow> protocol \<Rightarrow> int option list" where
  "micIds P s = map micObjId (micItems P s)"

text \<open>The stream state of the two stored output sets (\<open>None\<close> when the file is absent).\<close>

definition movieSetState :: "params \<Rightarrow> protocol \<Rightarrow> stream_state option" where
  "movieSetState P s = map_option streamState (movieSets s (getPath P (moviesBaseName P)))"

definition micSetState :: "params \<Rightarrow> protocol \<Rightarrow> stream_state option" where
  "micSetState P s = map_option streamState (micSets s (getPath P ''micrographs.sqlite''))"

subsection \<open>Properties of states\<close>

text \<open>
  Every identifier of the done list has an item in every output set the protocol writes:
  the movie set when \<^verbatim>\<open>_doGenerateOutputMovies\<close> says so, the micrograph set when
  \<^verbatim>\<open>doSaveAveMic\<close> is set.
\<close>

definition done_have_outputs :: "params \<Rightarrow> protocol \<Rightarrow> bool" where
  "done_have_outputs P s \<longleftrightarrow>
     (doGenerateOutputMovies \<longrightarrow> set (doneFile s) \<subseteq> set (movieIds P s)) \<and>
     (doSaveAveMic P \<longrightarrow> Some ` set (doneFile s) \<subseteq> set (micIds P s))"

text \<open>
  The output sets and the done list list the same identifiers in the same order; this
  holds between calls and is what the proofs about runs carry along.
\<close>

definition synced :: "params \<Rightarrow> protocol \<Rightarrow> bool" where
  "synced P s \<longleftrightarrow>
     movieIds P s = doneFile s \<and>
     (doSaveAveMic P \<longrightarrow> micIds P s = map Some (doneFile s)) \<and>
     (\<not> doSaveAveMic P \<longrightarrow> micIds P s = [])"

text \<open>
  While the attribute \<^verbatim>\<open>finished\<close> is set, the output sets the protocol writes are
  closed and the join step is not waiting.
\<close>

definition closed_when_finished :: "params \<Rightarrow> protocol \<Rightarrow> bool" where
  "closed_when_finished P s \<longleftrightarrow>
     (finished s \<longrightarrow>
        movieSetState P s = Some STREAM_CLOSED \<and>
        (doSaveAveMic P \<longrightarrow> micSetState P s = Some STREAM_CLOSED) \<and>
        joinStep s \<noteq> Some STATUS_WAITING)"

text \<open>
  The state after a call that passes the guard, before the join step is looked at:
  the stages of \<open>checkNewOutput\<close> written out as one record update.
\<close>

definition passResult :: "params \<Rightarrow> stream_input \<Rightarrow> protocol \<Rightarrow> protocol" where
  "passResult P I s =
    (let nd = newDoneOf I (doneFile s);
         fin = (streamClosed I \<and> length (doneFile s) + length nd = length (listOfMovies I));
         sm = (if fin then STREAM_CLOSED else STREAM_OPEN);
         ft = (doneFile s = [])
     in s\<lparr>doneFile := doneFile s @ map objId nd,
        finished := fin,
        movieSets := (movieSets s)(getPath P (moviesBaseName P) \<mapsto>
              (loadOutputSet P I (movieSets s) (moviesBaseName P))
                \<lparr>items := movieItems P s @ map (createOutputMovie P) nd, streamState := sm\<rparr>),
        micSets := (if doSaveAveMic P then (micSets s)(getPath P ''micrographs.sqlite'' \<mapsto>
              (loadOutputSet P I (micSets s) ''micrographs.sqlite'')
                \<lparr>items := micItems P s @ map (createOutputMic P) nd, streamState := sm\<rparr>)
            else micSets s),
        relations := relations s @
           (if ft then [(RELATION_TRANSFORM, filename (inputMovies I),
                         getPath P (moviesBaseName P))] else []) @
           (if ft \<and> doSaveAveMic P then [(RELATION_SOURCE, filename (inputMovies I),
                         getPath P ''micrographs.sqlite'')] else [])\<rparr>)"

subsection \<open>A small session\<close>

text \<open>
  Three movies arrive from an import; the protocol saves micrographs and keeps the
  original movies, with a binning factor of 2.
\<close>

definition demoParams :: params where
  "demoParams = \<lparr>alignFrame0 = 0, alignFrameN = 0, sumFrame0 = 0, sumFrameN = 0,
     binFactor = 2, cropOffsetX = 0, cropOffsetY = 0, cropDimX = 0, cropDimY = 0,
     doSaveAveMic = True, doSaveMovie = False,
     getPath = (\<lambda>b. ''run/'' @ b), getExtraPath = (\<lambda>b. ''run/extra/'' @ b),
     removeBaseExt = (\<lambda>f. f)\<rparr>"

definition demoMovie :: "int \<Rightarrow> movie" where
  "demoMovie i = \<lparr>objId = i, micName = ''mic'', fileName = ''movie'',
     numberOfFrames = 8, alignment = None\<rparr>"

definition demoInputSet :: "movie collection" where
  "demoInputSet = \<lparr>filename = ''import/movies.sqlite'', items = [],
     streamState = STREAM_OPEN, samplingRate = 3, acquisition = ''300kV''\<rparr>"

text \<open>Three movies known, the first two processed, the stream still open.\<close>

definition scenarioA :: stream_input where
  "scenarioA = \<lparr>inputMovies = demoInputSet,
     listOfMovies = [demoMovie 1, demoMovie 2, demoMovie 3], streamClosed = False,
     isMovieDone = (\<lambda>m. objId m \<le> 2)\<rparr>"

text \<open>The same three movies, all processed, the stream closed.\<close>

definition scenarioB :: stream_input where
  "scenarioB = \<lparr>inputMovies = demoInputSet,
     listOfMovies = [demoMovie 1, demoMovie 2, demoMovie 3], streamClosed = True,
     isMovieDone = (\<lambda>m. True)\<rparr>"

text \<open>One movie known and not processed yet, the stream open.\<close>

definition nothingReady :: stream_input where
  "nothingReady = \<lparr>inputMovies = demoInputSet,
     listOfMovies = [demoMovie 1], streamClosed = False,
     isMovieDone = (\<lambda>m. False)\<rparr>"

text \<open>One movie known and processed, the stream closed.\<close>

definition oneClosed :: stream_input where
  "oneClosed = \<lparr>inputMovies = demoInputSet,
     listOfMovies = [demoMovie 1], streamClosed = True,
     isMovieDone = (\<lambda>m. True)\<rparr>"

text \<open>A second movie is listed after that; it is not processed yet.\<close>

definition lateArrival :: stream_input where
  "lateArrival = \<lparr>inputMovies = demoInputSet,
     listOfMovies = [demoMovie 1, demoMovie 2], streamClosed = True,
     isMovieDone = (\<lambda>m. objId m \<le> 1)\<rparr>"

text \<open>The second movie is listed and processed.\<close>

definition lateReady :: stream_input where
  "lateReady = \<lparr>inputMovies = demoInputSet,
     listOfMovies = [demoMovie 1, demoMovie 2], streamClosed = True,
     isMovieDone = (\<lambda>m. True)\<rparr>"

text \<open>A micrograph set left by an earlier run, closed, with other metadata.\<close>

definition oldMicSet :: "micrograph collection" where
  "oldMicSet = \<lparr>filename = ''run/micrographs.sqlite'',
     items = [\<lparr>micObjId = Some 1, micMicName = Some ''mic'', micFileName = Some ''f''\<rparr>],
     streamState = STREAM_CLOSED, samplingRate = 1, acquisition = ''200kV''\<rparr>"

section \<open>Proofs\<close>

subsection \<open>The stages of a call, written out\<close>

lemma appendAll_open:
  "streamState c = STREAM_OPEN \<Longrightarrow> appendAll c xs = Inr (c\<lparr>items := items c @ xs\<rparr>)"
proof (induction xs arbitrary: c)
  case Nil
  then show ?case by simp
next
  case (Cons x xs)
  then show ?case by (simp add: append_item_def)
qed

lemmas set_ops = copyInfo_def setSamplingRate_def enableAppend_def setStreamState_def newSet_def

lemma loadOutputSet_open: "streamState (loadOutputSet P I store b) = STREAM_OPEN"
  by (simp add: loadOutputSet_def Let_def set_ops split: option.split)

lemma loadOutputSet_filename: "filename (loadOutputSet P I store b) = getPath P b"
  by (simp add: loadOutputSet_def Let_def set_ops split: option.split)

lemma loadOutputSet_items:
  "items (loadOutputSet P I store b) =
     (case store (getPath P b) of None \<Rightarrow> [] | Some c \<Rightarrow> items c)"
  by (simp add: loadOutputSet_def Let_def set_ops split: option.split)

lemma loadOutputSet_info:
  "acquisition (loadOutputSet P I store b) = acquisition (inputMovies I)"
  "samplingRate (loadOutputSet P I store b) = samplingRate (inputMovies I) * binFactor P"
  by (simp_all add: loadOutputSet_def Let_def set_ops split: option.split)

lemma movieStage_eq:
  "movieStage P I nd ft sm s =
     Inr (s\<lparr>movieSets := (movieSets s)(getPath P (moviesBaseName P) \<mapsto>
              (loadOutputSet P I (movieSets s) (moviesBaseName P))
                \<lparr>items := movieItems P s @ map (createOutputMovie P) nd, streamState := sm\<rparr>),
            relations := relations s @
              (if ft then [(RELATION_TRANSFORM, filename (inputMovies I),
                            getPath P (moviesBaseName P))] else [])\<rparr>)"
  by (simp add: movieStage_def doGenerateOutputMovies_def Let_def appendAll_open
      loadOutputSet_open loadOutputSet_filename loadOutputSet_items updateMovieSet_def
      setStreamState_def defineRelation_def movieItems_def)

lemma micStage_eq:
  "micStage P I nd ft sm s =
     Inr (if doSaveAveMic P then
       s\<lparr>micSets := (micSets s)(getPath P ''micrographs.sqlite'' \<mapsto>
              (loadOutputSet P I (micSets s) ''micrographs.sqlite'')
                \<lparr>items := micItems P s @ map (createOutputMic P) nd, streamState := sm\<rparr>),
            relations := relations s @
              (if ft then [(RELATION_SOURCE, filename (inputMovies I),
                            getPath P ''micrographs.sqlite'')] else [])\<rparr>
      else s)"
  by (simp add: micStage_def Let_def appendAll_open
      loadOutputSet_open loadOutputSet_filename loadOutputSet_items updateMicSet_def
      setStreamState_def defineRelation_def micItems_def)

lemma markStage_eq:
  "markStage I d nd s = s\<lparr>doneFile := doneFile s @ map objId nd,
     finished := (streamClosed I \<and> length d + length nd = length (listOfMovies I))\<rparr>"
  by (simp add: markStage_def Let_def writeDoneList_def)

lemma checkNewOutput_skip: "finished s \<Longrightarrow> checkNewOutput P I s = Inr s"
  by (simp add: checkNewOutput_def)

lemma checkNewOutput_eq:
  assumes "\<not> finished s"
  shows "checkNewOutput P I s = Inr (joinStage (passResult P I s))"
  using assms
  by (simp add: checkNewOutput_def Let_def movieStage_eq micStage_eq markStage_eq readDoneList_def
      passResult_def movieItems_def micItems_def)

lemma checkNewOutput_total: "\<exists>s'. checkNewOutput P I s = Inr s'"
  by (cases "finished s") (simp_all add: checkNewOutput_skip checkNewOutput_eq)

lemma joinStage_fields:
  "finished (joinStage s) = finished s"
  "doneFile (joinStage s) = doneFile s"
  "movieSets (joinStage s) = movieSets s"
  "micSets (joinStage s) = micSets s"
  "relations (joinStage s) = relations s"
  "joinStep (joinStage s) =
     (if finished s \<and> joinStep s = Some STATUS_WAITING then Some STATUS_NEW else joinStep s)"
  by (simp_all add: joinStage_def split: option.split)

lemma joinStage_views:
  "movieItems P (joinStage s) = movieItems P s"
  "micItems P (joinStage s) = micItems P s"
  "movieIds P (joinStage s) = movieIds P s"
  "micIds P (joinStage s) = micIds P s"
  "movieSetState P (joinStage s) = movieSetState P s"
  "micSetState P (joinStage s) = micSetState P s"
  by (simp_all add: movieItems_def micItems_def movieIds_def micIds_def movieSetState_def
      micSetState_def joinStage_fields)

lemma passResult_fields:
  "doneFile (passResult P I s) = doneFile s @ map objId (newDoneOf I (doneFile s))"
  "finished (passResult P I s) \<longleftrightarrow> streamClosed I \<and>
     length (doneFile s) + length (newDoneOf I (doneFile s)) = length (listOfMovies I)"
  "joinStep (passResult P I s) = joinStep s"
  "relations (passResult P I s) = relations s @
     (if doneFile s = [] then [(RELATION_TRANSFORM, filename (inputMovies I),
                         getPath P (moviesBaseName P))] else []) @
     (if doneFile s = [] \<and> doSaveAveMic P then [(RELATION_SOURCE, filename (inputMovies I),
                         getPath P ''micrographs.sqlite'')] else [])"
  by (simp_all add: passResult_def Let_def)

lemma passResult_items:
  "movieItems P (passResult P I s) =
     movieItems P s @ map (createOutputMovie P) (newDoneOf I (doneFile s))"
  "micItems P (passResult P I s) =
     (if doSaveAveMic P then micItems P s @ map (createOutputMic P) (newDoneOf I (doneFile s))
      else micItems P s)"
  by (simp_all add: passResult_def Let_def movieItems_def micItems_def)

lemma passResult_states:
  "movieSetState P (passResult P I s) =
     Some (if finished (passResult P I s) then STREAM_CLOSED else STREAM_OPEN)"
  "doSaveAveMic P \<Longrightarrow> micSetState P (passResult P I s) =
     Some (if finished (passResult P I s) then STREAM_CLOSED else STREAM_OPEN)"
  "\<not> doSaveAveMic P \<Longrightarrow> micSetState P (passResult P I s) = micSetState P s"
  by (simp_all add: passResult_def Let_def movieSetState_def micSetState_def)

lemma createOutputMovie_objId: "objId (createOutputMovie P m) = objId m"
  by (simp add: createOutputMovie_def Let_def split: prod.split)

lemma createOutputMovie_micName: "micName (createOutputMovie P m) = micName m"
  by (simp add: createOutputMovie_def Let_def split: prod.split)

lemma createOutputMic_fields:
  "micObjId (createOutputMic P m) = Some (objId m)"
  "micMicName (createOutputMic P m) = Some (micName m)"
  "micFileName (createOutputMic P m) = Some (getExtraPath P (getOutputMicName P m))"
  by (simp_all add: createOutputMic_def preprocessOutputMicrograph_def)

lemma passResult_ids:
  "movieIds P (passResult P I s) = movieIds P s @ map objId (newDoneOf I (doneFile s))"
  "micIds P (passResult P I s) =
     (if doSaveAveMic P then micIds P s @ map Some (map objId (newDoneOf I (doneFile s)))
      else micIds P s)"
  by (simp_all add: movieIds_def micIds_def passResult_items createOutputMovie_objId
      createOutputMic_fields comp_def)

subsection \<open>What a run keeps\<close>

lemma step_total: "\<exists>s'. step P e s = Inr s'"
  by (cases e) (simp_all add: checkNewOutput_total)

lemma run_total: "\<exists>t. run P es s = Inr t"
proof (induction es arbitrary: s)
  case Nil
  show ?case by simp
next
  case (Cons e es)
  obtain s' where "step P e s = Inr s'"
    using step_total by blast
  with Cons.IH [of s'] show ?case by simp
qed

lemma newDoneOf_ids_fresh: "set (map objId (newDoneOf I d)) \<inter> set d = {}"
  by (auto simp: newDoneOf_def)

lemma newDoneOf_ids_distinct:
  "distinct (map objId (listOfMovies I)) \<Longrightarrow> distinct (map objId (newDoneOf I d))"
  by (simp add: newDoneOf_def distinct_map_filter)

lemma synced_initial: "synced P (initial js)"
  by (simp add: synced_def initial_def movieIds_def micIds_def movieItems_def micItems_def)

lemma synced_poll:
  assumes "synced P s" and "checkNewOutput P I s = Inr s'"
  shows "synced P s'"
proof (cases "finished s")
  case True
  with assms show ?thesis by (simp add: checkNewOutput_skip)
next
  case False
  with assms(2) have "s' = joinStage (passResult P I s)"
    by (simp add: checkNewOutput_eq)
  with assms(1) show ?thesis
    by (simp add: synced_def joinStage_views joinStage_fields passResult_ids passResult_fields)
qed

lemma synced_restart: "synced P s \<Longrightarrow> synced P (s\<lparr>finished := False\<rparr>)"
  by (simp add: synced_def movieIds_def micIds_def movieItems_def micItems_def)

lemma synced_step: "synced P s \<Longrightarrow> step P e s = Inr s' \<Longrightarrow> synced P s'"
  by (cases e) (auto intro: synced_poll synced_restart)

lemma synced_run: "synced P s \<Longrightarrow> run P es s = Inr t \<Longrightarrow> synced P t"
proof (induction es arbitrary: s)
  case Nil
  then show ?case by simp
next
  case (Cons e es)
  from Cons.prems(2) obtain s' where s': "step P e s = Inr s'" and t: "run P es s' = Inr t"
    by (auto split: sum.splits)
  from Cons.prems(1) s' have "synced P s'" by (rule synced_step)
  then show ?case using t by (rule Cons.IH)
qed

lemma distinct_poll:
  assumes "distinct (doneFile s)" and "distinct (map objId (listOfMovies I))"
    and "checkNewOutput P I s = Inr s'"
  shows "distinct (doneFile s')"
proof (cases "finished s")
  case True
  with assms show ?thesis by (simp add: checkNewOutput_skip)
next
  case False
  with assms(3) have "s' = joinStage (passResult P I s)"
    by (simp add: checkNewOutput_eq)
  moreover have "set (doneFile s) \<inter> set (map objId (newDoneOf I (doneFile s))) = {}"
    using newDoneOf_ids_fresh [of I "doneFile s"] by blast
  ultimately show ?thesis
    using assms(1,2)
    by (simp add: joinStage_fields passResult_fields newDoneOf_ids_distinct del: set_map)
qed

lemma distinct_run:
  assumes "distinct (doneFile s)"
    and "\<forall>I. Poll I \<in> set es \<longrightarrow> distinct (map objId (listOfMovies I))"
    and "run P es s = Inr t"
  shows "distinct (doneFile t)"
  using assms
proof (induction es arbitrary: s)
  case Nil
  then show ?case by simp
next
  case (Cons e es)
  from Cons.prems(3) obtain s' where s': "step P e s = Inr s'" and t: "run P es s' = Inr t"
    by (auto split: sum.splits)
  have "distinct (doneFile s')"
  proof (cases e)
    case (Poll I)
    with Cons.prems(2) have "distinct (map objId (listOfMovies I))" by simp
    with Cons.prems(1) s' Poll show ?thesis by (auto intro: distinct_poll)
  next
    case Restart
    with s' Cons.prems(1) show ?thesis by auto
  qed
  moreover from Cons.prems(2)
  have "\<forall>I. Poll I \<in> set es \<longrightarrow> distinct (map objId (listOfMovies I))" by simp
  ultimately show ?case using t by (rule Cons.IH)
qed

lemma joinStep_poll:
  assumes "checkNewOutput P I s = Inr s'"
  shows "joinStep s' = joinStep s \<or>
    (joinStep s = Some STATUS_WAITING \<and> joinStep s' = Some STATUS_NEW)"
proof (cases "finished s")
  case True
  with assms show ?thesis by (simp add: checkNewOutput_skip)
next
  case False
  with assms have "s' = joinStage (passResult P I s)"
    by (simp add: checkNewOutput_eq)
  then show ?thesis
    by (simp add: joinStage_fields passResult_fields)
qed

lemma joinStep_step:
  assumes "step P e s = Inr s'"
  shows "joinStep s' = joinStep s \<or>
    (joinStep s = Some STATUS_WAITING \<and> joinStep s' = Some STATUS_NEW)"
  using assms by (cases e) (auto dest: joinStep_poll)

lemma joinStep_run:
  assumes "run P es s = Inr t"
  shows "joinStep t = joinStep s \<or>
    (joinStep s = Some STATUS_WAITING \<and> joinStep t = Some STATUS_NEW)"
  using assms
proof (induction es arbitrary: s)
  case Nil
  then show ?case by simp
next
  case (Cons e es)
  from Cons.prems obtain s' where s': "step P e s = Inr s'" and t: "run P es s' = Inr t"
    by (auto split: sum.splits)
  from joinStep_step [OF s'] Cons.IH [OF t] show ?case by auto
qed

lemma closed_when_finished_poll:
  assumes "closed_when_finished P s" and "checkNewOutput P I s = Inr s'"
  shows "closed_when_finished P s'"
proof (cases "finished s")
  case True
  with assms show ?thesis by (simp add: checkNewOutput_skip)
next
  case False
  with assms(2) have "s' = joinStage (passResult P I s)"
    by (simp add: checkNewOutput_eq)
  then show ?thesis
    by (simp add: closed_when_finished_def joinStage_views joinStage_fields passResult_states
        passResult_fields)
qed

lemma closed_when_finished_step:
  "closed_when_finished P s \<Longrightarrow> step P e s = Inr s' \<Longrightarrow> closed_when_finished P s'"
proof (cases e)
  case (Poll I)
  assume "closed_when_finished P s" and "step P e s = Inr s'"
  with Poll show ?thesis
    by (auto intro: closed_when_finished_poll)
next
  case Restart
  assume "step P e s = Inr s'"
  with Restart show ?thesis
    by (auto simp: closed_when_finished_def)
qed

lemma closed_when_finished_run:
  "closed_when_finished P s \<Longrightarrow> run P es s = Inr t \<Longrightarrow> closed_when_finished P t"
proof (induction es arbitrary: s)
  case Nil
  then show ?case by simp
next
  case (Cons e es)
  from Cons.prems(2) obtain s' where s': "step P e s = Inr s'" and t: "run P es s' = Inr t"
    by (auto split: sum.splits)
  from Cons.prems(1) s' have "closed_when_finished P s'"
    by (rule closed_when_finished_step)
  then show ?case using t by (rule Cons.IH)
qed

lemma newDoneOf_after: "newDoneOf I (d @ map objId (newDoneOf I d)) = []"
  by (auto simp: newDoneOf_def filter_empty_conv)

lemma checkNewOutput_states_last:
  "checkNewOutput P I s = Inr (last (s # checkNewOutput_states P I s))"
  by (simp add: checkNewOutput_def checkNewOutput_states_def Let_def movieStage_eq micStage_eq)

subsection \<open>The done list and the output sets\<close>

text \<open>
  C1, as the code has it. Whatever sequence of calls and restarts the protocol has gone
  through since it was created, the sequence returns, and in the state between two
  calls every identifier of the done list has its item in every output set the protocol
  writes. The property is one of the states between calls: inside a call the done list
  is written first and the appends follow.
\<close>

theorem done_ids_have_outputs_between_calls:
  "\<exists>s. run P es (initial js) = Inr s \<and> done_have_outputs P s"
proof -
  obtain s where r: "run P es (initial js) = Inr s"
    using run_total by blast
  from synced_initial r have "synced P s"
    by (rule synced_run)
  then have "done_have_outputs P s"
    by (auto simp: synced_def done_have_outputs_def)
  with r show ?thesis by blast
qed

text \<open>
  C1, witness: both output sets are written in the small session; after a first call, a
  restart and a second call the done list is \<open>[1, 2, 3]\<close> and the property holds.
\<close>

theorem done_ids_have_outputs_between_calls_witness:
  "doGenerateOutputMovies \<and> doSaveAveMic demoParams \<and>
   map_sum id doneFile
     (run demoParams [Poll scenarioA, Restart, Poll scenarioB] (initial (Some STATUS_WAITING)))
     = Inr [1, 2, 3] \<and>
   map_sum id (done_have_outputs demoParams)
     (run demoParams [Poll scenarioA, Restart, Poll scenarioB] (initial (Some STATUS_WAITING)))
     = Inr True"
proof -
  obtain s where r: "run demoParams [Poll scenarioA, Restart, Poll scenarioB]
      (initial (Some STATUS_WAITING)) = Inr s" and d: "done_have_outputs demoParams s"
    using done_ids_have_outputs_between_calls by blast
  have "map_sum id doneFile (run demoParams [Poll scenarioA, Restart, Poll scenarioB]
      (initial (Some STATUS_WAITING))) = Inr [1, 2, 3]"
    by code_simp
  moreover have "doGenerateOutputMovies \<and> doSaveAveMic demoParams"
    by (simp add: doGenerateOutputMovies_def demoParams_def)
  ultimately show ?thesis using r d by simp
qed

text \<open>
  C1, counterexample to the order the claim states (append first, mark after). In the
  first call of the small session the state right after \<^verbatim>\<open>_writeDoneList\<close> has the
  identifiers 1 and 2 in the done list while neither output set holds an item. A
  process that stops there and is started again never appends movies 1 and 2: the next
  call, with all three movies done, appends movie 3 alone.
\<close>

theorem done_list_written_before_appends:
  "doneFile (hd (checkNewOutput_states demoParams scenarioA (initial (Some STATUS_WAITING))))
     = [1, 2] \<and>
   movieIds demoParams
     (hd (checkNewOutput_states demoParams scenarioA (initial (Some STATUS_WAITING)))) = [] \<and>
   micIds demoParams
     (hd (checkNewOutput_states demoParams scenarioA (initial (Some STATUS_WAITING)))) = [] \<and>
   \<not> done_have_outputs demoParams
     (hd (checkNewOutput_states demoParams scenarioA (initial (Some STATUS_WAITING)))) \<and>
   map_sum id doneFile
     (run demoParams [Restart, Poll scenarioB]
        (hd (checkNewOutput_states demoParams scenarioA (initial (Some STATUS_WAITING)))))
     = Inr [1, 2, 3] \<and>
   map_sum id (movieIds demoParams)
     (run demoParams [Restart, Poll scenarioB]
        (hd (checkNewOutput_states demoParams scenarioA (initial (Some STATUS_WAITING)))))
     = Inr [3]"
  by code_simp


subsection \<open>The finished flag and the stream state\<close>

text \<open>
  C2, as the code has it. A call that finds the attribute \<^verbatim>\<open>finished\<close> unset returns
  with the attribute set exactly when the input stream is closed and the done list
  (the identifiers recorded before plus the ones found done in this call) is as long as
  the list of known movies; each output set the call writes is stored closed when the
  attribute is set and open otherwise.
\<close>

theorem finished_flag_when_recomputed:
  assumes "\<not> finished s"
  shows "\<exists>s'. checkNewOutput P I s = Inr s' \<and>
     (finished s' \<longleftrightarrow> streamClosed I \<and> length (doneFile s') = length (listOfMovies I)) \<and>
     length (doneFile s') = length (doneFile s) +
        length (filter (\<lambda>m. objId m \<notin> set (doneFile s) \<and> isMovieDone I m) (listOfMovies I)) \<and>
     movieSetState P s' = Some (if finished s' then STREAM_CLOSED else STREAM_OPEN) \<and>
     (doSaveAveMic P \<longrightarrow>
        micSetState P s' = Some (if finished s' then STREAM_CLOSED else STREAM_OPEN))"
proof -
  from assms have "checkNewOutput P I s = Inr (joinStage (passResult P I s))"
    by (rule checkNewOutput_eq)
  moreover have "finished (joinStage (passResult P I s)) \<longleftrightarrow>
      streamClosed I \<and> length (doneFile (joinStage (passResult P I s))) = length (listOfMovies I)"
    by (simp add: joinStage_fields passResult_fields)
  moreover have "length (doneFile (joinStage (passResult P I s))) = length (doneFile s) +
      length (filter (\<lambda>m. objId m \<notin> set (doneFile s) \<and> isMovieDone I m) (listOfMovies I))"
    by (simp add: joinStage_fields passResult_fields newDoneOf_def)
  moreover have "movieSetState P (joinStage (passResult P I s)) =
      Some (if finished (joinStage (passResult P I s)) then STREAM_CLOSED else STREAM_OPEN)"
    by (simp only: joinStage_views joinStage_fields passResult_states)
  moreover have "doSaveAveMic P \<longrightarrow> micSetState P (joinStage (passResult P I s)) =
      Some (if finished (joinStage (passResult P I s)) then STREAM_CLOSED else STREAM_OPEN)"
    by (simp add: joinStage_views joinStage_fields passResult_states)
  ultimately show ?thesis by blast
qed

text \<open>
  C2, witness: the first call on one processed movie with the stream closed.
\<close>

theorem finished_flag_when_recomputed_witness:
  "\<not> finished (initial (Some STATUS_WAITING)) \<and> doSaveAveMic demoParams \<and>
   map_sum id finished (checkNewOutput demoParams oneClosed (initial (Some STATUS_WAITING)))
     = Inr True \<and>
   map_sum id doneFile (checkNewOutput demoParams oneClosed (initial (Some STATUS_WAITING)))
     = Inr [1] \<and>
   map_sum id (movieSetState demoParams)
     (checkNewOutput demoParams oneClosed (initial (Some STATUS_WAITING)))
     = Inr (Some STREAM_CLOSED) \<and>
   map_sum id (micSetState demoParams)
     (checkNewOutput demoParams oneClosed (initial (Some STATUS_WAITING)))
     = Inr (Some STREAM_CLOSED)"
proof -
  have nf: "\<not> finished (initial (Some STATUS_WAITING))"
    by (simp add: initial_def)
  have mic: "doSaveAveMic demoParams"
    by (simp add: demoParams_def)
  have closed: "streamClosed oneClosed"
    and len: "length (listOfMovies oneClosed) = 1"
    by (simp_all add: oneClosed_def)
  have d: "map_sum id doneFile
      (checkNewOutput demoParams oneClosed (initial (Some STATUS_WAITING))) = Inr [1]"
    by code_simp
  from finished_flag_when_recomputed [OF nf, of demoParams oneClosed] mic closed len d
  show ?thesis using nf by auto
qed

text \<open>
  C2, counterexample to "on every call". After a call that set the attribute, a second
  movie is listed and not processed yet. The next call returns at the guard: the
  attribute stays set and the movie set stays closed, although the done list has one
  identifier and two movies are known.
\<close>

theorem finished_flag_kept_after_new_item:
  "map_sum id finished
     (run demoParams [Poll oneClosed, Poll lateArrival] (initial (Some STATUS_WAITING)))
     = Inr True \<and>
   map_sum id doneFile
     (run demoParams [Poll oneClosed, Poll lateArrival] (initial (Some STATUS_WAITING)))
     = Inr [1] \<and>
   newDoneOf lateArrival [1] = [] \<and>
   length (listOfMovies lateArrival) = 2 \<and>
   map_sum id (movieSetState demoParams)
     (run demoParams [Poll oneClosed, Poll lateArrival] (initial (Some STATUS_WAITING)))
     = Inr (Some STREAM_CLOSED)"
  by code_simp

subsection \<open>Candidates\<close>

text \<open>
  C3, as the code has it. A call that finds the attribute \<^verbatim>\<open>finished\<close> unset
  processes exactly the known movies that are done and whose identifier is not in the
  done list: their identifiers are added to the done list and their items are appended
  to the output sets, in the order of the list, and no appended item carries an
  identifier that was in the done list before the call. When every list of known movies
  has pairwise different identifiers, no identifier occurs twice in an output set after
  any sequence of calls and restarts.
\<close>

theorem candidates_appended_once:
  "(\<not> finished s \<longrightarrow>
      (\<exists>s'. checkNewOutput P I s = Inr s' \<and>
         doneFile s' = doneFile s @ map objId
           (filter (\<lambda>m. objId m \<notin> set (doneFile s) \<and> isMovieDone I m) (listOfMovies I)) \<and>
         movieItems P s' = movieItems P s @ map (createOutputMovie P)
           (filter (\<lambda>m. objId m \<notin> set (doneFile s) \<and> isMovieDone I m) (listOfMovies I)) \<and>
         micItems P s' = micItems P s @
           (if doSaveAveMic P then map (createOutputMic P)
              (filter (\<lambda>m. objId m \<notin> set (doneFile s) \<and> isMovieDone I m) (listOfMovies I))
            else []) \<and>
         (\<forall>i \<in> set (doneFile s).
            i \<notin> set (drop (length (movieIds P s)) (movieIds P s')) \<and>
            Some i \<notin> set (drop (length (micIds P s)) (micIds P s'))))) \<and>
   ((\<forall>J. Poll J \<in> set es \<longrightarrow> distinct (map objId (listOfMovies J))) \<longrightarrow>
      (\<exists>t. run P es (initial js) = Inr t \<and> distinct (movieIds P t) \<and> distinct (micIds P t)))"
proof (intro conjI impI)
  assume nf: "\<not> finished s"
  let ?nd = "filter (\<lambda>m. objId m \<notin> set (doneFile s) \<and> isMovieDone I m) (listOfMovies I)"
  let ?s' = "joinStage (passResult P I s)"
  have nd: "newDoneOf I (doneFile s) = ?nd"
    by (simp add: newDoneOf_def)
  from nf have "checkNewOutput P I s = Inr ?s'"
    by (rule checkNewOutput_eq)
  moreover have "doneFile ?s' = doneFile s @ map objId ?nd"
    by (simp add: joinStage_fields passResult_fields nd)
  moreover have "movieItems P ?s' = movieItems P s @ map (createOutputMovie P) ?nd"
    by (simp add: joinStage_views passResult_items nd)
  moreover have "micItems P ?s' = micItems P s @
      (if doSaveAveMic P then map (createOutputMic P) ?nd else [])"
    by (simp add: joinStage_views passResult_items nd)
  moreover have "\<forall>i \<in> set (doneFile s).
      i \<notin> set (drop (length (movieIds P s)) (movieIds P ?s')) \<and>
      Some i \<notin> set (drop (length (micIds P s)) (micIds P ?s'))"
    by (auto simp: joinStage_views passResult_ids nd)
  ultimately show "\<exists>s'. checkNewOutput P I s = Inr s' \<and>
         doneFile s' = doneFile s @ map objId ?nd \<and>
         movieItems P s' = movieItems P s @ map (createOutputMovie P) ?nd \<and>
         micItems P s' = micItems P s @
           (if doSaveAveMic P then map (createOutputMic P) ?nd else []) \<and>
         (\<forall>i \<in> set (doneFile s).
            i \<notin> set (drop (length (movieIds P s)) (movieIds P s')) \<and>
            Some i \<notin> set (drop (length (micIds P s)) (micIds P s')))"
    by blast
next
  assume ids: "\<forall>J. Poll J \<in> set es \<longrightarrow> distinct (map objId (listOfMovies J))"
  obtain t where r: "run P es (initial js) = Inr t"
    using run_total by blast
  from synced_initial r have sy: "synced P t"
    by (rule synced_run)
  have "distinct (doneFile (initial js))"
    by (simp add: initial_def)
  from this ids r have di: "distinct (doneFile t)"
    by (rule distinct_run)
  from sy di have "distinct (movieIds P t)"
    by (simp add: synced_def)
  moreover from sy di have "distinct (micIds P t)"
    by (cases "doSaveAveMic P") (simp_all add: synced_def distinct_map)
  ultimately show "\<exists>t. run P es (initial js) = Inr t \<and> distinct (movieIds P t) \<and>
      distinct (micIds P t)"
    using r by blast
qed

text \<open>
  C3, witness: the small session, with its last call repeated.
\<close>

theorem candidates_appended_once_witness:
  "\<not> finished (initial (Some STATUS_WAITING)) \<and> doSaveAveMic demoParams \<and>
   distinct (map objId (listOfMovies scenarioA)) \<and>
   distinct (map objId (listOfMovies scenarioB)) \<and>
   map_sum id (movieIds demoParams)
     (checkNewOutput demoParams scenarioA (initial (Some STATUS_WAITING))) = Inr [1, 2] \<and>
   map_sum id (movieIds demoParams)
     (run demoParams [Poll scenarioA, Poll scenarioB, Poll scenarioB]
        (initial (Some STATUS_WAITING))) = Inr [1, 2, 3] \<and>
   map_sum id (micIds demoParams)
     (run demoParams [Poll scenarioA, Poll scenarioB, Poll scenarioB]
        (initial (Some STATUS_WAITING))) = Inr [Some 1, Some 2, Some 3] \<and>
   map_sum id (distinct \<circ> movieIds demoParams)
     (run demoParams [Poll scenarioA, Poll scenarioB, Poll scenarioB]
        (initial (Some STATUS_WAITING))) = Inr True"
proof -
  have nf: "\<not> finished (initial (Some STATUS_WAITING))"
    by (simp add: initial_def)
  have mic: "doSaveAveMic demoParams"
    by (simp add: demoParams_def)
  have dA: "distinct (map objId (listOfMovies scenarioA))"
    and dB: "distinct (map objId (listOfMovies scenarioB))"
    by (simp_all add: scenarioA_def scenarioB_def demoMovie_def)
  then have ids: "\<forall>J. Poll J \<in> set [Poll scenarioA, Poll scenarioB, Poll scenarioB] \<longrightarrow>
        distinct (map objId (listOfMovies J))"
    by auto
  have one: "map_sum id (movieIds demoParams)
     (checkNewOutput demoParams scenarioA (initial (Some STATUS_WAITING))) = Inr [1, 2]"
    by code_simp
  have mov: "map_sum id (movieIds demoParams)
     (run demoParams [Poll scenarioA, Poll scenarioB, Poll scenarioB]
        (initial (Some STATUS_WAITING))) = Inr [1, 2, 3]"
    by code_simp
  have mics: "map_sum id (micIds demoParams)
     (run demoParams [Poll scenarioA, Poll scenarioB, Poll scenarioB]
        (initial (Some STATUS_WAITING))) = Inr [Some 1, Some 2, Some 3]"
    by code_simp
  from candidates_appended_once
    [of "initial (Some STATUS_WAITING)" demoParams scenarioA
      "[Poll scenarioA, Poll scenarioB, Poll scenarioB]" "Some STATUS_WAITING"] ids
  obtain t where "run demoParams [Poll scenarioA, Poll scenarioB, Poll scenarioB]
        (initial (Some STATUS_WAITING)) = Inr t" and "distinct (movieIds demoParams t)"
    by blast
  then have "map_sum id (distinct \<circ> movieIds demoParams)
     (run demoParams [Poll scenarioA, Poll scenarioB, Poll scenarioB]
        (initial (Some STATUS_WAITING))) = Inr True"
    by simp
  with nf mic dA dB one mov mics show ?thesis by blast
qed

text \<open>
  C3, counterexample to "on every call". After a call that set the attribute, a second
  movie is listed and done, and its identifier is not in the done list: it is a
  candidate. The next call returns at the guard and processes nothing.
\<close>

theorem ready_item_skipped_after_finished:
  "map_sum id doneFile
     (run demoParams [Poll oneClosed] (initial (Some STATUS_WAITING))) = Inr [1] \<and>
   newDoneOf lateReady [1] = [demoMovie 2] \<and>
   map_sum id doneFile
     (run demoParams [Poll oneClosed, Poll lateReady] (initial (Some STATUS_WAITING)))
     = Inr [1] \<and>
   map_sum id (movieIds demoParams)
     (run demoParams [Poll oneClosed, Poll lateReady] (initial (Some STATUS_WAITING)))
     = Inr [1] \<and>
   map_sum id (micIds demoParams)
     (run demoParams [Poll oneClosed, Poll lateReady] (initial (Some STATUS_WAITING)))
     = Inr [Some 1]"
  by code_simp

subsection \<open>Calling twice\<close>

text \<open>
  C4. Two calls in a row on the same input, from any state: both return, and the second
  one leaves the done list and the items of both output sets as the first one left
  them. When the first call passed the guard, the candidates left for the second one
  are none.
\<close>

theorem second_call_changes_nothing:
  "\<exists>s1 s2. checkNewOutput P I s = Inr s1 \<and> checkNewOutput P I s1 = Inr s2 \<and>
     doneFile s2 = doneFile s1 \<and> movieItems P s2 = movieItems P s1 \<and>
     micItems P s2 = micItems P s1 \<and>
     (\<not> finished s \<longrightarrow> newDoneOf I (doneFile s1) = [])"
proof (cases "finished s")
  case True
  then have "checkNewOutput P I s = Inr s"
    by (rule checkNewOutput_skip)
  with True show ?thesis by blast
next
  case False
  let ?s1 = "joinStage (passResult P I s)"
  from False have one: "checkNewOutput P I s = Inr ?s1"
    by (rule checkNewOutput_eq)
  have none: "newDoneOf I (doneFile ?s1) = []"
    by (simp add: joinStage_fields passResult_fields newDoneOf_after)
  show ?thesis
  proof (cases "finished ?s1")
    case True
    then have "checkNewOutput P I ?s1 = Inr ?s1"
      by (rule checkNewOutput_skip)
    with one none show ?thesis by blast
  next
    case False
    let ?s2 = "joinStage (passResult P I ?s1)"
    from False have two: "checkNewOutput P I ?s1 = Inr ?s2"
      by (rule checkNewOutput_eq)
    have "doneFile ?s2 = doneFile ?s1"
      using none by (simp add: joinStage_fields [of "passResult P I ?s1"] passResult_fields)
    moreover have "movieItems P ?s2 = movieItems P ?s1"
      using none by (simp add: joinStage_views [of P "passResult P I ?s1"] passResult_items)
    moreover have "micItems P ?s2 = micItems P ?s1"
      using none by (simp add: joinStage_views [of P "passResult P I ?s1"] passResult_items)
    ultimately show ?thesis using one two none by blast
  qed
qed

text \<open>
  C4, witness: the first call of the small session, made twice.
\<close>

theorem second_call_changes_nothing_witness:
  "\<not> finished (initial (Some STATUS_WAITING)) \<and>
   map_sum id doneFile
     (run demoParams [Poll scenarioA] (initial (Some STATUS_WAITING))) = Inr [1, 2] \<and>
   map_sum id doneFile
     (run demoParams [Poll scenarioA, Poll scenarioA] (initial (Some STATUS_WAITING)))
     = Inr [1, 2] \<and>
   map_sum id (movieIds demoParams)
     (run demoParams [Poll scenarioA, Poll scenarioA] (initial (Some STATUS_WAITING)))
     = Inr [1, 2] \<and>
   newDoneOf scenarioA [1, 2] = []"
proof -
  have nf: "\<not> finished (initial (Some STATUS_WAITING))"
    by (simp add: initial_def)
  obtain s1 s2 where
    one: "checkNewOutput demoParams scenarioA (initial (Some STATUS_WAITING)) = Inr s1"
    and two: "checkNewOutput demoParams scenarioA s1 = Inr s2"
    and same: "doneFile s2 = doneFile s1"
    and none: "newDoneOf scenarioA (doneFile s1) = []"
    using second_call_changes_nothing
      [of demoParams scenarioA "initial (Some STATUS_WAITING)"] nf
    by blast
  have d1: "map_sum id doneFile
     (run demoParams [Poll scenarioA] (initial (Some STATUS_WAITING))) = Inr [1, 2]"
    by code_simp
  with one have "doneFile s1 = [1, 2]" by simp
  with same none one two have "map_sum id doneFile
     (run demoParams [Poll scenarioA, Poll scenarioA] (initial (Some STATUS_WAITING)))
     = Inr [1, 2]" and "newDoneOf scenarioA [1, 2] = []"
    by simp_all
  moreover have "map_sum id (movieIds demoParams)
     (run demoParams [Poll scenarioA, Poll scenarioA] (initial (Some STATUS_WAITING)))
     = Inr [1, 2]"
    by code_simp
  ultimately show ?thesis using nf d1 by blast
qed

subsection \<open>The join step\<close>

text \<open>
  C5. A call in which the attribute \<^verbatim>\<open>finished\<close> becomes set stores every output set
  it writes closed and moves a waiting join step to new; a call in which it stays unset
  stores them open and leaves the join step as it was; a call that finds it set changes
  nothing; a join step that is not waiting is never touched. Over any sequence of calls
  and restarts the status of the join step either stays what it was or goes from
  waiting to new, once; and from the creation of the protocol on, whenever the attribute
  is set between two calls, the output sets are closed and the join step is not waiting.
\<close>

theorem join_step_released_once:
  "(\<exists>s'. checkNewOutput P I s = Inr s' \<and>
      (\<not> finished s \<and> finished s' \<longrightarrow>
         movieSetState P s' = Some STREAM_CLOSED \<and>
         (doSaveAveMic P \<longrightarrow> micSetState P s' = Some STREAM_CLOSED) \<and>
         (joinStep s = Some STATUS_WAITING \<longrightarrow> joinStep s' = Some STATUS_NEW)) \<and>
      (\<not> finished s \<and> \<not> finished s' \<longrightarrow>
         movieSetState P s' = Some STREAM_OPEN \<and>
         (doSaveAveMic P \<longrightarrow> micSetState P s' = Some STREAM_OPEN) \<and>
         joinStep s' = joinStep s) \<and>
      (finished s \<longrightarrow> s' = s) \<and>
      (joinStep s \<noteq> Some STATUS_WAITING \<longrightarrow> joinStep s' = joinStep s)) \<and>
   (\<exists>t. run P es s = Inr t \<and>
      (joinStep t = joinStep s \<or>
       (joinStep s = Some STATUS_WAITING \<and> joinStep t = Some STATUS_NEW))) \<and>
   (\<exists>u. run P es (initial js) = Inr u \<and> closed_when_finished P u)"
proof (intro conjI)
  show "\<exists>t. run P es s = Inr t \<and>
      (joinStep t = joinStep s \<or>
       (joinStep s = Some STATUS_WAITING \<and> joinStep t = Some STATUS_NEW))"
    using run_total [of P es s] joinStep_run [of P es s] by blast
next
  obtain u where r: "run P es (initial js) = Inr u"
    using run_total by blast
  have "closed_when_finished P (initial js)"
    by (simp add: closed_when_finished_def initial_def)
  from this r have "closed_when_finished P u"
    by (rule closed_when_finished_run)
  with r show "\<exists>u. run P es (initial js) = Inr u \<and> closed_when_finished P u"
    by blast
next
  show "\<exists>s'. checkNewOutput P I s = Inr s' \<and>
      (\<not> finished s \<and> finished s' \<longrightarrow>
         movieSetState P s' = Some STREAM_CLOSED \<and>
         (doSaveAveMic P \<longrightarrow> micSetState P s' = Some STREAM_CLOSED) \<and>
         (joinStep s = Some STATUS_WAITING \<longrightarrow> joinStep s' = Some STATUS_NEW)) \<and>
      (\<not> finished s \<and> \<not> finished s' \<longrightarrow>
         movieSetState P s' = Some STREAM_OPEN \<and>
         (doSaveAveMic P \<longrightarrow> micSetState P s' = Some STREAM_OPEN) \<and>
         joinStep s' = joinStep s) \<and>
      (finished s \<longrightarrow> s' = s) \<and>
      (joinStep s \<noteq> Some STATUS_WAITING \<longrightarrow> joinStep s' = joinStep s)"
  proof (cases "finished s")
    case True
    then have "checkNewOutput P I s = Inr s"
      by (rule checkNewOutput_skip)
    with True show ?thesis by simp
  next
    case False
    let ?s' = "joinStage (passResult P I s)"
    from False have "checkNewOutput P I s = Inr ?s'"
      by (rule checkNewOutput_eq)
    moreover have "finished ?s' \<longrightarrow> movieSetState P ?s' = Some STREAM_CLOSED \<and>
         (doSaveAveMic P \<longrightarrow> micSetState P ?s' = Some STREAM_CLOSED) \<and>
         (joinStep s = Some STATUS_WAITING \<longrightarrow> joinStep ?s' = Some STATUS_NEW)"
      by (simp add: joinStage_views joinStage_fields passResult_states passResult_fields)
    moreover have "\<not> finished ?s' \<longrightarrow> movieSetState P ?s' = Some STREAM_OPEN \<and>
         (doSaveAveMic P \<longrightarrow> micSetState P ?s' = Some STREAM_OPEN) \<and>
         joinStep ?s' = joinStep s"
      by (simp add: joinStage_views joinStage_fields passResult_states passResult_fields)
    moreover have "joinStep s \<noteq> Some STATUS_WAITING \<longrightarrow> joinStep ?s' = joinStep s"
      by (simp add: joinStage_fields passResult_fields)
    ultimately show ?thesis using False by blast
  qed
qed

text \<open>
  C5, witness: a call that finishes at once, a call that does not, and a longer session
  with a restart after the end.
\<close>

theorem join_step_released_once_witness:
  "\<not> finished (initial (Some STATUS_WAITING)) \<and>
   joinStep (initial (Some STATUS_WAITING)) = Some STATUS_WAITING \<and>
   doSaveAveMic demoParams \<and>
   map_sum id finished
     (checkNewOutput demoParams oneClosed (initial (Some STATUS_WAITING))) = Inr True \<and>
   map_sum id joinStep
     (checkNewOutput demoParams oneClosed (initial (Some STATUS_WAITING)))
     = Inr (Some STATUS_NEW) \<and>
   map_sum id (micSetState demoParams)
     (checkNewOutput demoParams oneClosed (initial (Some STATUS_WAITING)))
     = Inr (Some STREAM_CLOSED) \<and>
   map_sum id joinStep
     (run demoParams [Poll scenarioA] (initial (Some STATUS_WAITING)))
     = Inr (Some STATUS_WAITING) \<and>
   map_sum id joinStep
     (run demoParams [Poll scenarioA, Poll scenarioB, Poll scenarioB, Restart, Poll scenarioB]
        (initial (Some STATUS_WAITING)))
     = Inr (Some STATUS_NEW) \<and>
   map_sum id finished
     (run demoParams [Poll scenarioA, Poll scenarioB, Poll scenarioB, Restart, Poll scenarioB]
        (initial (Some STATUS_WAITING)))
     = Inr True \<and>
   map_sum id (closed_when_finished demoParams)
     (run demoParams [Poll scenarioA, Poll scenarioB, Poll scenarioB, Restart, Poll scenarioB]
        (initial (Some STATUS_WAITING)))
     = Inr True"
proof -
  let ?es = "[Poll scenarioA, Poll scenarioB, Poll scenarioB, Restart, Poll scenarioB]"
  have nf: "\<not> finished (initial (Some STATUS_WAITING))"
    and js: "joinStep (initial (Some STATUS_WAITING)) = Some STATUS_WAITING"
    by (simp_all add: initial_def)
  have mic: "doSaveAveMic demoParams"
    by (simp add: demoParams_def)
  have fin: "map_sum id finished
     (checkNewOutput demoParams oneClosed (initial (Some STATUS_WAITING))) = Inr True"
    by code_simp
  have open_run: "map_sum id joinStep
     (run demoParams [Poll scenarioA] (initial (Some STATUS_WAITING)))
     = Inr (Some STATUS_WAITING)"
    by code_simp
  have long_run: "map_sum id joinStep
     (run demoParams ?es (initial (Some STATUS_WAITING))) = Inr (Some STATUS_NEW)"
    by code_simp
  have long_fin: "map_sum id finished
     (run demoParams ?es (initial (Some STATUS_WAITING))) = Inr True"
    by code_simp
  note inst = join_step_released_once
    [of demoParams oneClosed "initial (Some STATUS_WAITING)" ?es "Some STATUS_WAITING"]
  from inst obtain s' where
    r: "checkNewOutput demoParams oneClosed (initial (Some STATUS_WAITING)) = Inr s'"
    and rel: "\<not> finished (initial (Some STATUS_WAITING)) \<and> finished s' \<longrightarrow>
         movieSetState demoParams s' = Some STREAM_CLOSED \<and>
         (doSaveAveMic demoParams \<longrightarrow> micSetState demoParams s' = Some STREAM_CLOSED) \<and>
         (joinStep (initial (Some STATUS_WAITING)) = Some STATUS_WAITING \<longrightarrow>
            joinStep s' = Some STATUS_NEW)"
    by blast
  from inst obtain u where
    "run demoParams ?es (initial (Some STATUS_WAITING)) = Inr u"
    and "closed_when_finished demoParams u"
    by blast
  then have inv: "map_sum id (closed_when_finished demoParams)
     (run demoParams ?es (initial (Some STATUS_WAITING))) = Inr True"
    by simp
  from r fin have "finished s'" by simp
  with rel nf js mic have "joinStep s' = Some STATUS_NEW"
    and "micSetState demoParams s' = Some STREAM_CLOSED"
    by simp_all
  with r have "map_sum id joinStep
     (checkNewOutput demoParams oneClosed (initial (Some STATUS_WAITING)))
     = Inr (Some STATUS_NEW)"
    and "map_sum id (micSetState demoParams)
     (checkNewOutput demoParams oneClosed (initial (Some STATUS_WAITING)))
     = Inr (Some STREAM_CLOSED)"
    by simp_all
  with nf js mic fin open_run long_run long_fin inv show ?thesis by blast
qed

subsection \<open>Loading an output set\<close>

text \<open>
  C6. When a set file exists at the path, \<open>loadOutputSet\<close> returns the set with the
  items of that file, open for appending; otherwise it returns an empty set, open, with
  the acquisition of the input set and the input sampling rate times the binning
  factor. In both cases the set lives at the path.
\<close>

theorem loadOutputSet_resume_or_create:
  "(store (getPath P b) = Some c \<longrightarrow>
      items (loadOutputSet P I store b) = items c \<and>
      streamState (loadOutputSet P I store b) = STREAM_OPEN) \<and>
   (store (getPath P b) = None \<longrightarrow>
      items (loadOutputSet P I store b) = [] \<and>
      streamState (loadOutputSet P I store b) = STREAM_OPEN \<and>
      acquisition (loadOutputSet P I store b) = acquisition (inputMovies I) \<and>
      samplingRate (loadOutputSet P I store b) = samplingRate (inputMovies I) * binFactor P) \<and>
   filename (loadOutputSet P I store b) = getPath P b"
  by (simp add: loadOutputSet_open loadOutputSet_items loadOutputSet_info
      loadOutputSet_filename)

text \<open>
  C6, witness: a closed micrograph set left by an earlier run, and no file at all.
\<close>

theorem loadOutputSet_resume_or_create_witness:
  "[''run/micrographs.sqlite'' \<mapsto> oldMicSet] (getPath demoParams ''micrographs.sqlite'')
     = Some oldMicSet \<and>
   streamState oldMicSet = STREAM_CLOSED \<and>
   items (loadOutputSet demoParams scenarioA [''run/micrographs.sqlite'' \<mapsto> oldMicSet]
     ''micrographs.sqlite'') = items oldMicSet \<and>
   streamState (loadOutputSet demoParams scenarioA [''run/micrographs.sqlite'' \<mapsto> oldMicSet]
     ''micrographs.sqlite'') = STREAM_OPEN \<and>
   (Map.empty :: string \<rightharpoonup> micrograph collection) (getPath demoParams ''micrographs.sqlite'')
     = None \<and>
   items (loadOutputSet demoParams scenarioA (Map.empty :: string \<rightharpoonup> micrograph collection)
     ''micrographs.sqlite'') = [] \<and>
   streamState (loadOutputSet demoParams scenarioA
     (Map.empty :: string \<rightharpoonup> micrograph collection) ''micrographs.sqlite'') = STREAM_OPEN \<and>
   acquisition (loadOutputSet demoParams scenarioA
     (Map.empty :: string \<rightharpoonup> micrograph collection) ''micrographs.sqlite'') = ''300kV''"
proof -
  have old: "[''run/micrographs.sqlite'' \<mapsto> oldMicSet]
      (getPath demoParams ''micrographs.sqlite'') = Some oldMicSet"
    by (simp add: demoParams_def)
  have new: "(Map.empty :: string \<rightharpoonup> micrograph collection)
      (getPath demoParams ''micrographs.sqlite'') = None"
    by simp
  have closed: "streamState oldMicSet = STREAM_CLOSED"
    by (simp add: oldMicSet_def)
  have acq: "acquisition (inputMovies scenarioA) = ''300kV''"
    by (simp add: scenarioA_def demoInputSet_def)
  from loadOutputSet_resume_or_create
         [of "[''run/micrographs.sqlite'' \<mapsto> oldMicSet]" demoParams
             "''micrographs.sqlite''" oldMicSet scenarioA]
       loadOutputSet_resume_or_create
         [of "Map.empty :: string \<rightharpoonup> micrograph collection" demoParams
             "''micrographs.sqlite''" oldMicSet scenarioA]
       old new closed acq
  show ?thesis by simp
qed

subsection \<open>Relations\<close>

text \<open>
  C7, the code at a failing input. Two calls while no movie is done yet: the done list
  is empty both times, nothing is appended, and both relations are recorded twice.
\<close>

theorem relations_recorded_on_every_early_call:
  "map_sum id doneFile
     (run demoParams [Poll nothingReady, Poll nothingReady] (initial (Some STATUS_WAITING)))
     = Inr [] \<and>
   map_sum id (movieIds demoParams)
     (run demoParams [Poll nothingReady, Poll nothingReady] (initial (Some STATUS_WAITING)))
     = Inr [] \<and>
   map_sum id relations
     (run demoParams [Poll nothingReady, Poll nothingReady] (initial (Some STATUS_WAITING)))
     = Inr [(RELATION_TRANSFORM, ''import/movies.sqlite'', ''run/movies_original.sqlite''),
            (RELATION_SOURCE, ''import/movies.sqlite'', ''run/micrographs.sqlite''),
            (RELATION_TRANSFORM, ''import/movies.sqlite'', ''run/movies_original.sqlite''),
            (RELATION_SOURCE, ''import/movies.sqlite'', ''run/micrographs.sqlite'')]"
  by code_simp

subsection \<open>The guard\<close>

text \<open>
  C8, as the code has it. The attribute \<^verbatim>\<open>finished\<close> is a cached flag: a call that
  finds it set returns the state unchanged, without looking at the done list or at the
  input; a call that finds it unset computes it from the done list on disk and the
  state of the input alone.
\<close>

theorem finished_flag_cached:
  "(finished s \<longrightarrow> checkNewOutput P I s = Inr s) \<and>
   (\<not> finished s \<longrightarrow>
      map_sum id finished (checkNewOutput P I s) =
        Inr (streamClosed I \<and>
             length (doneFile s) +
             length (filter (\<lambda>m. objId m \<notin> set (doneFile s) \<and> isMovieDone I m)
                       (listOfMovies I)) =
             length (listOfMovies I)))"
  by (simp add: checkNewOutput_skip checkNewOutput_eq joinStage_fields passResult_fields
      newDoneOf_def)

text \<open>
  C8, witness: two calls that compute the flag, and one that finds it set.
\<close>

theorem finished_flag_cached_witness:
  "\<not> finished (initial (Some STATUS_WAITING)) \<and>
   map_sum id finished
     (checkNewOutput demoParams scenarioA (initial (Some STATUS_WAITING))) = Inr False \<and>
   map_sum id finished
     (checkNewOutput demoParams oneClosed (initial (Some STATUS_WAITING))) = Inr True \<and>
   finished (initial (Some STATUS_WAITING)\<lparr>finished := True\<rparr>) \<and>
   checkNewOutput demoParams scenarioA (initial (Some STATUS_WAITING)\<lparr>finished := True\<rparr>)
     = Inr (initial (Some STATUS_WAITING)\<lparr>finished := True\<rparr>)"
proof -
  have nf: "\<not> finished (initial (Some STATUS_WAITING))"
    and f: "finished (initial (Some STATUS_WAITING)\<lparr>finished := True\<rparr>)"
    by (simp_all add: initial_def)
  from finished_flag_cached [of "initial (Some STATUS_WAITING)" demoParams scenarioA] nf
  have "map_sum id finished
     (checkNewOutput demoParams scenarioA (initial (Some STATUS_WAITING))) = Inr False"
    by (simp add: initial_def scenarioA_def)
  moreover
  from finished_flag_cached [of "initial (Some STATUS_WAITING)" demoParams oneClosed] nf
  have "map_sum id finished
     (checkNewOutput demoParams oneClosed (initial (Some STATUS_WAITING))) = Inr True"
    by (simp add: initial_def oneClosed_def)
  moreover
  from finished_flag_cached
    [of "initial (Some STATUS_WAITING)\<lparr>finished := True\<rparr>" demoParams scenarioA] f
  have "checkNewOutput demoParams scenarioA (initial (Some STATUS_WAITING)\<lparr>finished := True\<rparr>)
     = Inr (initial (Some STATUS_WAITING)\<lparr>finished := True\<rparr>)"
    by simp
  ultimately show ?thesis using nf f by blast
qed

text \<open>
  C8, counterexample. The same files and the same input, with the stream open: the call
  that finds the flag set leaves it set, the call after a restart computes it unset.
\<close>

theorem finished_depends_on_cached_flag:
  "map_sum id doneFile
     (run demoParams [Poll oneClosed] (initial (Some STATUS_WAITING))) = Inr [1] \<and>
   map_sum id doneFile
     (run demoParams [Poll oneClosed, Restart] (initial (Some STATUS_WAITING))) = Inr [1] \<and>
   streamClosed scenarioA = False \<and>
   map_sum id finished
     (run demoParams [Poll oneClosed, Poll scenarioA] (initial (Some STATUS_WAITING)))
     = Inr True \<and>
   map_sum id finished
     (run demoParams [Poll oneClosed, Restart, Poll scenarioA] (initial (Some STATUS_WAITING)))
     = Inr False"
  by code_simp

subsection \<open>Metadata of the output sets\<close>

text \<open>
  C9. Whatever file is or is not at the path, the set that \<open>loadOutputSet\<close> returns
  has the acquisition of the current input set and the input sampling rate times the
  binning factor; so has every output set stored by a call that passes the guard.
\<close>

theorem loadOutputSet_overwrites_metadata:
  "acquisition (loadOutputSet P I store b) = acquisition (inputMovies I) \<and>
   samplingRate (loadOutputSet P I store b) = samplingRate (inputMovies I) * binFactor P \<and>
   (\<not> finished s \<longrightarrow>
      (\<exists>s' c. checkNewOutput P I s = Inr s' \<and>
         movieSets s' (getPath P (moviesBaseName P)) = Some c \<and>
         acquisition c = acquisition (inputMovies I) \<and>
         samplingRate c = samplingRate (inputMovies I) * binFactor P)) \<and>
   (\<not> finished s \<and> doSaveAveMic P \<longrightarrow>
      (\<exists>s' c. checkNewOutput P I s = Inr s' \<and>
         micSets s' (getPath P ''micrographs.sqlite'') = Some c \<and>
         acquisition c = acquisition (inputMovies I) \<and>
         samplingRate c = samplingRate (inputMovies I) * binFactor P))"
  by (simp add: loadOutputSet_info checkNewOutput_eq joinStage_fields passResult_def Let_def)

text \<open>
  C9, witness: a micrograph set left by an earlier run with other metadata is resumed.
\<close>

theorem loadOutputSet_overwrites_metadata_witness:
  "samplingRate oldMicSet = 1 \<and> acquisition oldMicSet = ''200kV'' \<and>
   acquisition (loadOutputSet demoParams scenarioA [''run/micrographs.sqlite'' \<mapsto> oldMicSet]
     ''micrographs.sqlite'') = ''300kV'' \<and>
   samplingRate (loadOutputSet demoParams scenarioA [''run/micrographs.sqlite'' \<mapsto> oldMicSet]
     ''micrographs.sqlite'') = 6 \<and>
   \<not> finished (initial (Some STATUS_WAITING)\<lparr>micSets := [''run/micrographs.sqlite'' \<mapsto> oldMicSet]\<rparr>) \<and>
   doSaveAveMic demoParams \<and>
   map_sum id (\<lambda>s. map_option samplingRate (micSets s ''run/micrographs.sqlite''))
     (checkNewOutput demoParams scenarioA
        (initial (Some STATUS_WAITING)\<lparr>micSets := [''run/micrographs.sqlite'' \<mapsto> oldMicSet]\<rparr>))
     = Inr (Some 6)"
proof -
  let ?s = "initial (Some STATUS_WAITING)\<lparr>micSets := [''run/micrographs.sqlite'' \<mapsto> oldMicSet]\<rparr>"
  have nf: "\<not> finished ?s"
    by (simp add: initial_def)
  have mic: "doSaveAveMic demoParams" and bin: "binFactor demoParams = 2"
    and path: "getPath demoParams ''micrographs.sqlite'' = ''run/micrographs.sqlite''"
    by (simp_all add: demoParams_def)
  have src: "samplingRate (inputMovies scenarioA) = 3"
    "acquisition (inputMovies scenarioA) = ''300kV''"
    by (simp_all add: scenarioA_def demoInputSet_def)
  have old: "samplingRate oldMicSet = 1 \<and> acquisition oldMicSet = ''200kV''"
    by (simp add: oldMicSet_def)
  note inst = loadOutputSet_overwrites_metadata
    [of demoParams scenarioA "[''run/micrographs.sqlite'' \<mapsto> oldMicSet]"
        "''micrographs.sqlite''" ?s]
  from inst nf mic obtain s' c where
    "checkNewOutput demoParams scenarioA ?s = Inr s'"
    "micSets s' (getPath demoParams ''micrographs.sqlite'') = Some c"
    "samplingRate c = samplingRate (inputMovies scenarioA) * binFactor demoParams"
    by blast
  then have "map_sum id (\<lambda>s. map_option samplingRate (micSets s ''run/micrographs.sqlite''))
     (checkNewOutput demoParams scenarioA ?s) = Inr (Some 6)"
    by (simp add: path src bin)
  with inst old nf mic show ?thesis
    by (simp add: src bin)
qed

subsection \<open>Micrographs\<close>

text \<open>
  C10. Whatever a call appends to the micrograph set, it makes from movies of the
  list of known movies, one micrograph each and in their order, and each micrograph
  carries the identifier and the micrograph name of its movie. In a call that passes
  the guard with \<^verbatim>\<open>doSaveAveMic\<close> set these movies are the candidates.
\<close>

theorem micrograph_keeps_movie_identity:
  "\<exists>s' nd. checkNewOutput P I s = Inr s' \<and>
     set nd \<subseteq> set (listOfMovies I) \<and>
     micItems P s' = micItems P s @ map (createOutputMic P) nd \<and>
     map micObjId (drop (length (micItems P s)) (micItems P s')) =
       map (\<lambda>m. Some (objId m)) nd \<and>
     map micMicName (drop (length (micItems P s)) (micItems P s')) =
       map (\<lambda>m. Some (micName m)) nd \<and>
     (\<not> finished s \<and> doSaveAveMic P \<longrightarrow>
        nd = filter (\<lambda>m. objId m \<notin> set (doneFile s) \<and> isMovieDone I m) (listOfMovies I))"
proof (cases "\<not> finished s \<and> doSaveAveMic P")
  case True
  let ?nd = "filter (\<lambda>m. objId m \<notin> set (doneFile s) \<and> isMovieDone I m) (listOfMovies I)"
  let ?s' = "joinStage (passResult P I s)"
  from True have "checkNewOutput P I s = Inr ?s'"
    by (simp add: checkNewOutput_eq)
  moreover have "set ?nd \<subseteq> set (listOfMovies I)"
    by auto
  moreover from True have items: "micItems P ?s' = micItems P s @ map (createOutputMic P) ?nd"
    by (simp add: joinStage_views passResult_items newDoneOf_def)
  moreover have "map micObjId (drop (length (micItems P s)) (micItems P ?s')) =
      map (\<lambda>m. Some (objId m)) ?nd"
    by (simp add: items createOutputMic_fields comp_def)
  moreover have "map micMicName (drop (length (micItems P s)) (micItems P ?s')) =
      map (\<lambda>m. Some (micName m)) ?nd"
    by (simp add: items createOutputMic_fields comp_def)
  ultimately show ?thesis by blast
next
  case False
  obtain s' where r: "checkNewOutput P I s = Inr s'"
    using checkNewOutput_total by blast
  have "micItems P s' = micItems P s"
  proof (cases "finished s")
    case True
    with r show ?thesis by (simp add: checkNewOutput_skip)
  next
    case nf: False
    with False have "\<not> doSaveAveMic P" by simp
    moreover from nf r have "s' = joinStage (passResult P I s)"
      by (simp add: checkNewOutput_eq)
    ultimately show ?thesis
      by (simp add: joinStage_views passResult_items)
  qed
  then have "set [] \<subseteq> set (listOfMovies I) \<and>
     micItems P s' = micItems P s @ map (createOutputMic P) [] \<and>
     map micObjId (drop (length (micItems P s)) (micItems P s')) =
       map (\<lambda>m. Some (objId m)) [] \<and>
     map micMicName (drop (length (micItems P s)) (micItems P s')) =
       map (\<lambda>m. Some (micName m)) []"
    by simp
  with r False show ?thesis by blast
qed

text \<open>
  C10, witness: the first call of the small session appends micrographs 1 and 2.
\<close>

theorem micrograph_keeps_movie_identity_witness:
  "\<not> finished (initial (Some STATUS_WAITING)) \<and> doSaveAveMic demoParams \<and>
   map objId (filter (\<lambda>m. objId m \<notin> set (doneFile (initial (Some STATUS_WAITING))) \<and>
      isMovieDone scenarioA m) (listOfMovies scenarioA)) = [1, 2] \<and>
   map_sum id (micIds demoParams)
     (checkNewOutput demoParams scenarioA (initial (Some STATUS_WAITING)))
     = Inr [Some 1, Some 2]"
proof -
  have nf: "\<not> finished (initial (Some STATUS_WAITING))"
    by (simp add: initial_def)
  have mic: "doSaveAveMic demoParams"
    by (simp add: demoParams_def)
  have cand: "map objId (filter (\<lambda>m. objId m \<notin> set (doneFile (initial (Some STATUS_WAITING))) \<and>
      isMovieDone scenarioA m) (listOfMovies scenarioA)) = [1, 2]"
    by (simp add: initial_def scenarioA_def demoMovie_def)
  have none: "micItems demoParams (initial (Some STATUS_WAITING)) = []"
    by (simp add: micItems_def initial_def)
  from micrograph_keeps_movie_identity [of demoParams scenarioA "initial (Some STATUS_WAITING)"]
    nf mic
  obtain s' nd
    where "checkNewOutput demoParams scenarioA (initial (Some STATUS_WAITING)) = Inr s'"
    and "map micObjId (drop (length (micItems demoParams (initial (Some STATUS_WAITING))))
           (micItems demoParams s')) = map (\<lambda>m. Some (objId m)) nd"
    and "nd = filter (\<lambda>m. objId m \<notin> set (doneFile (initial (Some STATUS_WAITING))) \<and>
              isMovieDone scenarioA m) (listOfMovies scenarioA)"
    by blast
  then have "map_sum id (micIds demoParams)
     (checkNewOutput demoParams scenarioA (initial (Some STATUS_WAITING)))
     = Inr (map Some (map objId (filter (\<lambda>m. objId m \<notin> set (doneFile (initial (Some STATUS_WAITING))) \<and>
      isMovieDone scenarioA m) (listOfMovies scenarioA))))"
    by (simp add: none micIds_def comp_def)
  with nf mic cand show ?thesis by simp
qed

end
